theory Spec2Isabelle
  imports Main
begin

section \<open>Data model\<close>

text \<open>
  The embedding follows \<^verbatim>\<open>torch/distributed/_tensor/sharding_prop.py\<close>.
  Python objects that the propagator mutates are modelled as follows.
  \<^item> The caller's \<^verbatim>\<open>DTensorSpec\<close> objects live in a store, addressed by natural numbers, so
    that a spec shared between the caller's schema and a graph node is one object.
  \<^item> The metadata dictionary of every graph node is part of the state, addressed by node id.
  \<^item> An \<^verbatim>\<open>OutputSharding\<close> object returned by a rule is reachable only through the node it
    is attached to and through the local variable of the walk, so it is held by value and
    written back to the node whenever the source mutates it.
  \<^item> Every call of a rule and every construction of a trial graph is logged in the state.
  The \<^verbatim>\<open>print\<close> statements of the source write to the standard output only and are left out.
\<close>

datatype placement = Replicate | Shard nat | Partial

text \<open>
  The object held in the field \<^verbatim>\<open>tensor_meta\<close> of a spec or under the key \<^verbatim>\<open>"tensor_meta"\<close> of
  a graph node. The source reads its \<^verbatim>\<open>shape\<close>, \<^verbatim>\<open>dtype\<close> and \<^verbatim>\<open>requires_grad\<close> and calls its
  \<^verbatim>\<open>stride()\<close>. The field \<open>stride_is_method\<close> tells whether \<^verbatim>\<open>stride\<close> is a method, as for a
  tensor, or a plain value, as for the \<^verbatim>\<open>TensorMetadata\<close> tuple that tracing attaches to the
  nodes of a graph; calling a plain value raises \<^verbatim>\<open>TypeError\<close>.
\<close>

record tensor_metadata =
  shape :: "nat list"
  stride :: "nat list"
  dtype :: string
  requires_grad :: bool
  stride_is_method :: bool

record dtensor_spec =
  mesh :: "nat list"
  placements :: "placement list"
  tensor_meta :: "tensor_metadata option"

text \<open>Nested containers of arguments, as \<^verbatim>\<open>torch.utils._pytree\<close> sees them: a leaf, or a
  tuple, list or dictionary (with its keys as context) of subtrees.\<close>

datatype ctx = KTuple | KList | KDict "string list"

datatype 'a pytree = Leaf 'a | PNode ctx "'a pytree list"

datatype plain = PInt int | PBool bool | PNone

text \<open>
  A leaf of a schema is a reference to a \<^verbatim>\<open>DTensorSpec\<close> of the store, a \<^verbatim>\<open>DTensorSpec\<close> that
  is not shared with the store (one created by a rule for a suggestion), a plain value, or,
  since Python is dynamically typed, an \<^verbatim>\<open>OutputSharding\<close> object. The last field of
  \<open>OutputSharding\<close> is the attribute \<^verbatim>\<open>tensor_meta\<close> that \<^verbatim>\<open>unwrap_spec_from_node\<close> may set on
  such an object; \<open>None\<close> means the attribute is not set.
\<close>

datatype leaf = LRef nat | LSpec dtensor_spec | LConst plain | LRes output_sharding
and output_sharding =
  OutputSharding (output_spec: "leaf pytree option")
                 (schema_suggestions: "op_schema list option")
                 (failed_reason: "string option")
                 (tensor_meta_attr: "tensor_metadata option")
and op_schema =
  OpSchema (func_schema: string) (args_schema: "leaf pytree") (kwargs_schema: "leaf pytree")

datatype node_op = Placeholder | CallFunction | Output | GetAttr | CallModule | CallMethod

datatype arg = ANode nat | AConst plain

record node =
  nid :: nat
  op :: node_op
  target :: string
  args :: "arg pytree"
  kwargs :: "arg pytree"

record node_meta =
  meta_sharding :: "leaf option"
  meta_tensor_meta :: "tensor_metadata option"

record state =
  meta :: "nat \<Rightarrow> node_meta"
  store :: "nat \<Rightarrow> dtensor_spec"
  calls :: "(string \<times> op_schema) list"
  graphs_built :: nat

datatype error =
    NotImplementedError string
  | RuleFailed string op_schema string
  | FailedReason string op_schema string
  | RuleRaised string
  | ValueError node_op
  | IndexError
  | KeyError string
  | AttributeError string
  | TypeError string
  | EmptyStridedError string
  | AssertionError
  | UnboundLocalError string
  | GraphBuildError string

text \<open>A rule reads the schema and the spec objects it refers to; it returns a result or
  raises an exception, given by its message.\<close>

type_synonym rule = "(nat \<Rightarrow> dtensor_spec) \<Rightarrow> op_schema \<Rightarrow> string + output_sharding"

section \<open>Trees\<close>

text \<open>\<^verbatim>\<open>tree_map\<close> with a function that may change the state and may raise: the leaves are
  visited from left to right and the first exception ends the traversal.\<close>

fun tree_map_st ::
    "('a \<Rightarrow> 's \<Rightarrow> (error + 'b) \<times> 's) \<Rightarrow> 'a pytree \<Rightarrow> 's \<Rightarrow> (error + 'b pytree) \<times> 's"
  and forest_map_st ::
    "('a \<Rightarrow> 's \<Rightarrow> (error + 'b) \<times> 's) \<Rightarrow> 'a pytree list \<Rightarrow> 's \<Rightarrow> (error + 'b pytree list) \<times> 's"
where
  "tree_map_st f (Leaf x) s =
     (case f x s of (Inl e, s') \<Rightarrow> (Inl e, s') | (Inr y, s') \<Rightarrow> (Inr (Leaf y), s'))"
| "tree_map_st f (PNode c ts) s =
     (case forest_map_st f ts s of
        (Inl e, s') \<Rightarrow> (Inl e, s')
      | (Inr ts', s') \<Rightarrow> (Inr (PNode c ts'), s'))"
| "forest_map_st f [] s = (Inr [], s)"
| "forest_map_st f (t # ts) s =
     (case tree_map_st f t s of
        (Inl e, s') \<Rightarrow> (Inl e, s')
      | (Inr t', s') \<Rightarrow>
          (case forest_map_st f ts s' of
             (Inl e, s'') \<Rightarrow> (Inl e, s'')
           | (Inr ts', s'') \<Rightarrow> (Inr (t' # ts'), s'')))"

fun tree_flatten :: "'a pytree \<Rightarrow> 'a list" where
  "tree_flatten (Leaf x) = [x]"
| "tree_flatten (PNode c ts) = concat (map tree_flatten ts)"

section \<open>Graph nodes\<close>

fun dedup_first :: "'a list \<Rightarrow> 'a list \<Rightarrow> 'a list" where
  "dedup_first seen [] = []"
| "dedup_first seen (x # xs) =
     (if x \<in> set seen then dedup_first seen xs else x # dedup_first (x # seen) xs)"

fun arg_nodes :: "arg list \<Rightarrow> nat list" where
  "arg_nodes [] = []"
| "arg_nodes (ANode n # xs) = n # arg_nodes xs"
| "arg_nodes (AConst c # xs) = arg_nodes xs"

text \<open>\<^verbatim>\<open>Node.all_input_nodes\<close>: the nodes among the arguments, then among the keyword
  arguments, each once, in the order of their first occurrence.\<close>

definition all_input_nodes :: "node \<Rightarrow> nat list" where
  "all_input_nodes n =
     dedup_first [] (arg_nodes (tree_flatten (args n)) @ arg_nodes (tree_flatten (kwargs n)))"

definition set_sharding :: "nat \<Rightarrow> leaf \<Rightarrow> state \<Rightarrow> state" where
  "set_sharding n v st = st\<lparr>meta := (meta st)(n := (meta st n)\<lparr>meta_sharding := Some v\<rparr>)\<rparr>"

text \<open>
  \<^verbatim>\<open>unwrap_spec_from_node\<close>: read \<^verbatim>\<open>n.meta["sharding"]\<close> and \<^verbatim>\<open>n.meta["tensor_meta"]\<close> (a
  missing key raises \<^verbatim>\<open>KeyError\<close>), assign the latter to the attribute \<^verbatim>\<open>tensor_meta\<close> of the
  former, and return the object. Assigning an attribute to a plain value raises
  \<^verbatim>\<open>AttributeError\<close>.
\<close>

definition unwrap_spec_from_node :: "nat \<Rightarrow> state \<Rightarrow> (error + leaf) \<times> state" where
  "unwrap_spec_from_node n st =
     (case meta_sharding (meta st n) of
        None \<Rightarrow> (Inl (KeyError ''sharding''), st)
      | Some spec \<Rightarrow>
          (case meta_tensor_meta (meta st n) of
             None \<Rightarrow> (Inl (KeyError ''tensor_meta''), st)
           | Some tm \<Rightarrow>
               (case spec of
                  LRef a \<Rightarrow>
                    (Inr (LRef a),
                     st\<lparr>store := (store st)(a := (store st a)\<lparr>tensor_meta := Some tm\<rparr>)\<rparr>)
                | LSpec s \<Rightarrow>
                    (Inr (LSpec (s\<lparr>tensor_meta := Some tm\<rparr>)),
                     set_sharding n (LSpec (s\<lparr>tensor_meta := Some tm\<rparr>)) st)
                | LConst c \<Rightarrow> (Inl (AttributeError ''tensor_meta''), st)
                | LRes r \<Rightarrow>
                    (Inr (LRes (OutputSharding (output_spec r) (schema_suggestions r)
                                  (failed_reason r) (Some tm))),
                     set_sharding n
                       (LRes (OutputSharding (output_spec r) (schema_suggestions r)
                                (failed_reason r) (Some tm))) st))))"

text \<open>The function that \<^verbatim>\<open>tree_map_only(Node, unwrap_spec_from_node, ...)\<close> applies to a leaf.\<close>

definition unwrap_arg :: "arg \<Rightarrow> state \<Rightarrow> (error + leaf) \<times> state" where
  "unwrap_arg a st =
     (case a of ANode n \<Rightarrow> unwrap_spec_from_node n st | AConst c \<Rightarrow> (Inr (LConst c), st))"

section \<open>Per-node propagation\<close>

definition call_rule :: "rule \<Rightarrow> string \<Rightarrow> op_schema \<Rightarrow> state \<Rightarrow> (string + output_sharding) \<times> state" where
  "call_rule f op_call sch st = (f (store st) sch, st\<lparr>calls := calls st @ [(op_call, sch)]\<rparr>)"

text \<open>Lines 189 to 193 of the source: the schema of a node, built from its arguments.\<close>

definition node_op_schema :: "node \<Rightarrow> state \<Rightarrow> (error + op_schema) \<times> state" where
  "node_op_schema op_node st =
     (case tree_map_st unwrap_arg (args op_node) st of
        (Inl e, st1) \<Rightarrow> (Inl e, st1)
      | (Inr args_s, st1) \<Rightarrow>
          (case tree_map_st unwrap_arg (kwargs op_node) st1 of
             (Inl e, st2) \<Rightarrow> (Inl e, st2)
           | (Inr kwargs_s, st2) \<Rightarrow> (Inr (OpSchema (target op_node) args_s kwargs_s), st2)))"

text \<open>Lines 206 to 247: what happens to the result \<open>r\<close> of the first call of the rule.\<close>

definition resolve_output ::
    "rule \<Rightarrow> node \<Rightarrow> op_schema \<Rightarrow> output_sharding \<Rightarrow> state \<Rightarrow> (error + output_sharding) \<times> state" where
  "resolve_output f op_node sch r st3 =
     (let st4 = set_sharding (nid op_node) (LRes r) st3 in
      case output_spec r of
        None \<Rightarrow>
          (case schema_suggestions r of
             None \<Rightarrow>
               (case failed_reason r of
                  Some reason \<Rightarrow> (Inl (FailedReason (target op_node) sch reason), st4)
                | None \<Rightarrow>
                    (let r' = OutputSharding None (Some [sch]) None (tensor_meta_attr r)
                     in (Inr r', set_sharding (nid op_node) (LRes r') st4)))
           | Some [] \<Rightarrow> (Inl IndexError, st4)
           | Some (suggested # rest) \<Rightarrow>
               (case call_rule f (target op_node) suggested st4 of
                  (Inl e, st5) \<Rightarrow> (Inl (RuleRaised e), st5)
                | (Inr propagation_res, st5) \<Rightarrow>
                    (let r' = OutputSharding (output_spec propagation_res)
                                (Some (suggested # rest)) (failed_reason r) (tensor_meta_attr r)
                     in (Inr r', set_sharding (nid op_node) (LRes r') st5))))
      | Some out \<Rightarrow>
          (let r' = OutputSharding (Some out) (Some [sch]) (failed_reason r) (tensor_meta_attr r)
           in (Inr r', set_sharding (nid op_node) (LRes r') st4)))"

definition run_op_prop ::
    "(string \<Rightarrow> rule option) \<Rightarrow> node \<Rightarrow> state \<Rightarrow> (error + output_sharding) \<times> state" where
  "run_op_prop op_to_rules op_node st =
     (case op_to_rules (target op_node) of
        None \<Rightarrow> (Inl (NotImplementedError (target op_node)), st)
      | Some f \<Rightarrow>
          (case node_op_schema op_node st of
             (Inl e, st2) \<Rightarrow> (Inl e, st2)
           | (Inr sch, st2) \<Rightarrow>
               (case call_rule f (target op_node) sch st2 of
                  (Inl e, st3) \<Rightarrow> (Inl (RuleFailed (target op_node) sch e), st3)
                | (Inr r, st3) \<Rightarrow> resolve_output f op_node sch r st3)))"

section \<open>Graph walk\<close>

definition is_DTensorSpec :: "leaf \<Rightarrow> bool" where
  "is_DTensorSpec l = (case l of LRef a \<Rightarrow> True | LSpec s \<Rightarrow> True | _ \<Rightarrow> False)"

text \<open>The loop of \<^verbatim>\<open>run_graph_prop\<close> over the nodes of the graph, with its three local
  variables \<^verbatim>\<open>placeholder_idx\<close>, \<^verbatim>\<open>output_sharding\<close> and \<^verbatim>\<open>output_spec\<close>; \<open>None\<close> for
  \<^verbatim>\<open>output_spec\<close> means that the variable is not bound yet.\<close>

fun walk ::
    "(string \<Rightarrow> rule option) \<Rightarrow> leaf list \<Rightarrow> node list \<Rightarrow> nat \<Rightarrow> output_sharding option \<Rightarrow>
     leaf pytree option \<Rightarrow> state \<Rightarrow>
     (error + output_sharding option \<times> leaf pytree option) \<times> state" where
  "walk op_to_rules flat [] placeholder_idx osh ospec st = (Inr (osh, ospec), st)"
| "walk op_to_rules flat (n # ns) placeholder_idx osh ospec st =
     (if op n = Placeholder then
        (if placeholder_idx < length flat then
           walk op_to_rules flat ns (placeholder_idx + 1) osh ospec
             (if is_DTensorSpec (flat ! placeholder_idx)
              then set_sharding (nid n) (flat ! placeholder_idx) st else st)
         else (Inl IndexError, st))
      else if op n = CallFunction then
        (case run_op_prop op_to_rules n st of
           (Inl e, st') \<Rightarrow> (Inl e, st')
         | (Inr r, st') \<Rightarrow> walk op_to_rules flat ns placeholder_idx (Some r) ospec st')
      else if op n = Output then
        (case tree_map_st unwrap_arg (PNode KList (map (\<lambda>i. Leaf (ANode i)) (all_input_nodes n))) st of
           (Inl e, st') \<Rightarrow> (Inl e, st')
         | (Inr out, st') \<Rightarrow> walk op_to_rules flat ns placeholder_idx osh (Some out) st')
      else (Inl (ValueError (op n)), st))"

definition run_graph_prop ::
    "(string \<Rightarrow> rule option) \<Rightarrow> node list \<Rightarrow> leaf list \<Rightarrow> state \<Rightarrow>
     (error + output_sharding) \<times> state" where
  "run_graph_prop op_to_rules op_graph flat_args_sharding st =
     (case walk op_to_rules flat_args_sharding op_graph 0 None None st of
        (Inl e, st') \<Rightarrow> (Inl e, st')
      | (Inr (osh, ospec), st') \<Rightarrow>
          (case ospec of
             None \<Rightarrow> (Inl (UnboundLocalError ''output_spec''), st')
           | Some out \<Rightarrow>
               (case osh of
                  None \<Rightarrow> (Inl (AttributeError ''schema_suggestions''), st')
                | Some r \<Rightarrow>
                    (Inr (OutputSharding (Some out) (schema_suggestions r) None None), st'))))"

section \<open>Propagation on a trial graph\<close>

datatype fake = FakeTensor tensor_metadata | FakeOther leaf

record graph_module =
  nodes :: "node list"
  init_meta :: "nat \<Rightarrow> node_meta"

text \<open>
  \<^verbatim>\<open>torch.empty_strided\<close> and \<^verbatim>\<open>get_isolated_graphmodule\<close> are not part of the file: they are
  the two fields of a parameter. The first takes a shape, strides, a dtype and the
  gradient flag and returns the tensor it creates, or raises; the second returns the trial
  graph with the metadata of its nodes, or raises.
\<close>

type_synonym builder = "string \<Rightarrow> fake pytree \<Rightarrow> fake pytree \<Rightarrow> string + graph_module"

record fake_mode =
  empty_strided :: "nat list \<Rightarrow> nat list \<Rightarrow> string \<Rightarrow> bool \<Rightarrow> string + tensor_metadata"
  get_isolated_graphmodule :: builder

text \<open>
  \<^verbatim>\<open>_rebuild_tensor_from_dtensor\<close>: the assertion on \<^verbatim>\<open>tensor_meta\<close>, then the arguments of
  \<^verbatim>\<open>torch.empty_strided\<close> from left to right, among them the call \<^verbatim>\<open>tensor_meta.stride()\<close>,
  then the call of \<^verbatim>\<open>torch.empty_strided\<close> itself.
\<close>

definition rebuild_tensor_from_dtensor :: "fake_mode \<Rightarrow> dtensor_spec \<Rightarrow> error + fake" where
  "rebuild_tensor_from_dtensor env arg =
     (case tensor_meta arg of
        None \<Rightarrow> Inl AssertionError
      | Some tm \<Rightarrow>
          (if stride_is_method tm then
             (case empty_strided env (shape tm) (stride tm) (dtype tm) (requires_grad tm) of
                Inl e \<Rightarrow> Inl (EmptyStridedError e)
              | Inr t \<Rightarrow> Inr (FakeTensor t))
           else Inl (TypeError ''stride'')))"

text \<open>The function that \<^verbatim>\<open>tree_map_only(DTensorSpec, self._rebuild_tensor_from_dtensor, ...)\<close>
  applies to a leaf.\<close>

definition rebuild_arg :: "fake_mode \<Rightarrow> leaf \<Rightarrow> state \<Rightarrow> (error + fake) \<times> state" where
  "rebuild_arg env l st =
     (case l of
        LRef a \<Rightarrow> (rebuild_tensor_from_dtensor env (store st a), st)
      | LSpec s \<Rightarrow> (rebuild_tensor_from_dtensor env s, st)
      | _ \<Rightarrow> (Inr (FakeOther l), st))"

definition propagate ::
    "(string \<Rightarrow> rule option) \<Rightarrow> fake_mode \<Rightarrow> string \<Rightarrow> op_schema \<Rightarrow> state \<Rightarrow>
     (error + output_sharding) \<times> state" where
  "propagate op_to_rules env op_call sch st =
     (case tree_map_st (rebuild_arg env) (args_schema sch) st of
        (Inl e, st1) \<Rightarrow> (Inl e, st1)
      | (Inr fake_args, st1) \<Rightarrow>
          (case tree_map_st (rebuild_arg env) (kwargs_schema sch) st1 of
             (Inl e, st2) \<Rightarrow> (Inl e, st2)
           | (Inr fake_kwargs, st2) \<Rightarrow>
               (case get_isolated_graphmodule env op_call fake_args fake_kwargs of
                  Inl e \<Rightarrow> (Inl (GraphBuildError e), st2\<lparr>graphs_built := Suc (graphs_built st2)\<rparr>)
                | Inr op_graph \<Rightarrow>
                    run_graph_prop op_to_rules (nodes op_graph)
                      (tree_flatten (PNode KList [args_schema sch, kwargs_schema sch]))
                      (st2\<lparr>meta := init_meta op_graph,
                           graphs_built := Suc (graphs_built st2)\<rparr>))))"

section \<open>Caching propagator\<close>

text \<open>
  The cache is a dictionary keyed by \<^verbatim>\<open>OpSchema\<close> objects, whose \<^verbatim>\<open>__hash__\<close> and \<^verbatim>\<open>__eq__\<close>
  are defined outside of the file. They are the parameter \<open>key_of\<close>, which maps a schema and
  the spec objects it refers to at the time of the dictionary operation to its key.
\<close>

record 'k caching_propagator =
  op_to_rules :: "string \<Rightarrow> rule option"
  cached_prop_results :: "'k \<rightharpoonup> output_sharding"

definition caching_propagate ::
    "((nat \<Rightarrow> dtensor_spec) \<Rightarrow> op_schema \<Rightarrow> 'k) \<Rightarrow> fake_mode \<Rightarrow> string \<Rightarrow> op_schema \<Rightarrow>
     'k caching_propagator \<Rightarrow> state \<Rightarrow>
     ((error + output_sharding) \<times> state) \<times> 'k caching_propagator" where
  "caching_propagate key_of env op_call sch self st =
     (case cached_prop_results self (key_of (store st) sch) of
        Some r \<Rightarrow> ((Inr r, st), self)
      | None \<Rightarrow>
          (case propagate (op_to_rules self) env op_call sch st of
             (Inl e, st') \<Rightarrow> ((Inl e, st'), self)
           | (Inr r, st') \<Rightarrow>
               ((Inr r, st'),
                self\<lparr>cached_prop_results :=
                       (cached_prop_results self)(key_of (store st') sch \<mapsto> r)\<rparr>)))"

section \<open>Example inputs\<close>

text \<open>A trial graph with one placeholder, one computational node and the output node, the
  state in which the caller's spec at address 0 has no tensor metadata yet, and a few stub
  rules. They are the concrete inputs at which the theorems below are evaluated.\<close>

text \<open>The tensor metadata of the nodes of the graph, a \<^verbatim>\<open>TensorMetadata\<close> tuple.\<close>

definition tmA :: tensor_metadata where
  "tmA = \<lparr>shape = [4, 4], stride = [4, 1], dtype = ''float32'', requires_grad = False,
           stride_is_method = False\<rparr>"

definition specA :: dtensor_spec where
  "specA = \<lparr>mesh = [0, 1], placements = [Shard 0], tensor_meta = None\<rparr>"

definition specR :: dtensor_spec where
  "specR = \<lparr>mesh = [0, 1], placements = [Replicate], tensor_meta = None\<rparr>"

definition ex_p0 :: node where
  "ex_p0 = \<lparr>nid = 0, op = Placeholder, target = ''x'', args = PNode KTuple [],
            kwargs = PNode (KDict []) []\<rparr>"

definition ex_n1 :: node where
  "ex_n1 = \<lparr>nid = 1, op = CallFunction, target = ''aten.relu'',
            args = PNode KTuple [Leaf (ANode 0)], kwargs = PNode (KDict []) []\<rparr>"

definition ex_out :: node where
  "ex_out = \<lparr>nid = 2, op = Output, target = ''output'', args = PNode KTuple [Leaf (ANode 1)],
             kwargs = PNode (KDict []) []\<rparr>"

definition ex_meta :: "nat \<Rightarrow> node_meta" where
  "ex_meta = (\<lambda>i. \<lparr>meta_sharding = None, meta_tensor_meta = Some tmA\<rparr>)"

definition ex_st :: state where
  "ex_st = \<lparr>meta = ex_meta, store = (\<lambda>a. specA), calls = [], graphs_built = 0\<rparr>"

text \<open>The state after the walk has passed the placeholder, and the state after the schema
  of the computational node has been built.\<close>

definition ex_st1 :: state where
  "ex_st1 = set_sharding 0 (LRef 0) ex_st"

definition ex_st2 :: state where
  "ex_st2 = ex_st1\<lparr>store := (store ex_st1)(0 := specA\<lparr>tensor_meta := Some tmA\<rparr>)\<rparr>"

definition ex_sch :: op_schema where
  "ex_sch = OpSchema ''aten.relu'' (PNode KTuple [Leaf (LRef 0)]) (PNode (KDict []) [])"

definition ex_sugg :: op_schema where
  "ex_sugg = OpSchema ''aten.relu'' (PNode KTuple [Leaf (LSpec specR)]) (PNode (KDict []) [])"

definition rule_ok :: rule where
  "rule_ok s sch = Inr (OutputSharding (Some (Leaf (LSpec specA))) None None None)"

definition rule_scalar :: rule where
  "rule_scalar s sch = Inr (OutputSharding None None None None)"

definition rule_reason :: rule where
  "rule_reason s sch = Inr (OutputSharding None None (Some ''unsupported placements'') None)"

definition rule_redistribute :: rule where
  "rule_redistribute s sch =
     (if sch = ex_sugg then Inr (OutputSharding (Some (Leaf (LSpec specR))) None None None)
      else Inr (OutputSharding None (Some [ex_sugg]) None None))"

definition rule_empty :: rule where
  "rule_empty s sch = Inr (OutputSharding None (Some []) None None)"

definition rule_raise_second :: rule where
  "rule_raise_second s sch =
     (if sch = ex_sugg then Inl ''boom''
      else Inr (OutputSharding None (Some [ex_sugg]) None None))"

definition registry :: "rule \<Rightarrow> string \<Rightarrow> rule option" where
  "registry f = (\<lambda>n. if n = ''aten.relu'' then Some f else None)"

definition ex_graph :: "node list" where
  "ex_graph = [ex_p0, ex_n1, ex_out]"

text \<open>What the walk returns on \<open>ex_graph\<close> with the rule \<open>rule_ok\<close>.\<close>

definition ex_res :: output_sharding where
  "ex_res = OutputSharding
     (Some (PNode KList
        [Leaf (LRes (OutputSharding (Some (Leaf (LSpec specA))) (Some [ex_sch]) None
                       (Some tmA)))]))
     (Some [ex_sch]) None None"

text \<open>What the graph walk may change in the store of the caller's specs, relative to the
  state \<open>st0\<close> it started from: the mesh and the placements of every spec are the same, its
  tensor metadata are the same or those of a graph node, and the tensor metadata of the
  nodes are the same.\<close>

definition frame :: "state \<Rightarrow> state \<Rightarrow> bool" where
  "frame st0 s \<longleftrightarrow>
     (\<forall>a. mesh (store s a) = mesh (store st0 a)
        \<and> placements (store s a) = placements (store st0 a)
        \<and> (tensor_meta (store s a) = tensor_meta (store st0 a)
           \<or> (\<exists>n tm. meta_tensor_meta (meta st0 n) = Some tm
                  \<and> tensor_meta (store s a) = Some tm)))
   \<and> (\<forall>n. meta_tensor_meta (meta s n) = meta_tensor_meta (meta st0 n))"

text \<open>Inputs for \<^verbatim>\<open>propagate\<close>: a caller's spec whose tensor metadata are a tensor (its
  \<^verbatim>\<open>stride\<close> is a method), an \<^verbatim>\<open>empty_strided\<close> that refuses strides that do not fit the shape, a
  graph builder that traces the one operator of the examples, a key function that compares
  schemas by the values of the specs they refer to, and a caching propagator with an empty
  cache.\<close>

definition tmT :: tensor_metadata where
  "tmT = \<lparr>shape = [4, 4], stride = [4, 1], dtype = ''float32'', requires_grad = False,
           stride_is_method = True\<rparr>"

definition specB :: dtensor_spec where
  "specB = \<lparr>mesh = [0, 1], placements = [Shard 0], tensor_meta = Some tmT\<rparr>"

definition ex_empty_strided ::
    "nat list \<Rightarrow> nat list \<Rightarrow> string \<Rightarrow> bool \<Rightarrow> string + tensor_metadata" where
  "ex_empty_strided sh sd dt rg =
     (if length sh = length sd
      then Inr \<lparr>shape = sh, stride = sd, dtype = dt, requires_grad = rg, stride_is_method = True\<rparr>
      else Inl ''mismatch in length of strides and shape'')"

definition ex_stB :: state where
  "ex_stB = \<lparr>meta = (\<lambda>i. \<lparr>meta_sharding = None, meta_tensor_meta = None\<rparr>),
             store = (\<lambda>a. specB), calls = [], graphs_built = 0\<rparr>"

definition ex_build :: builder where
  "ex_build op_call fake_args fake_kwargs =
     (if op_call = ''aten.relu'' \<and> fake_args = PNode KTuple [Leaf (FakeTensor tmT)]
      then Inr \<lparr>nodes = ex_graph, init_meta = ex_meta\<rparr>
      else Inl ''cannot trace'')"

definition ex_env :: fake_mode where
  "ex_env = \<lparr>empty_strided = ex_empty_strided, get_isolated_graphmodule = ex_build\<rparr>"



definition deref_leaf :: "(nat \<Rightarrow> dtensor_spec) \<Rightarrow> leaf \<Rightarrow> leaf" where
  "deref_leaf s l = (case l of LRef a \<Rightarrow> LSpec (s a) | _ \<Rightarrow> l)"

definition ex_key :: "(nat \<Rightarrow> dtensor_spec) \<Rightarrow> op_schema \<Rightarrow> string \<times> leaf list" where
  "ex_key s sch =
     (func_schema sch,
      map (deref_leaf s) (tree_flatten (PNode KList [args_schema sch, kwargs_schema sch])))"

definition ex_self :: "(string \<times> leaf list) caching_propagator" where
  "ex_self = \<lparr>op_to_rules = registry rule_ok, cached_prop_results = Map.empty\<rparr>"

definition ex_first ::
  "((error + output_sharding) \<times> state) \<times> (string \<times> leaf list) caching_propagator" where
  "ex_first = caching_propagate ex_key ex_env ''aten.relu'' ex_sch ex_self ex_stB"

section \<open>Traversals keep what their leaf function keeps\<close>

lemmas model_defs = run_graph_prop_def run_op_prop_def node_op_schema_def resolve_output_def
  call_rule_def unwrap_arg_def unwrap_spec_from_node_def set_sharding_def is_DTensorSpec_def
  all_input_nodes_def Let_def

lemmas ex_defs = tmA_def specA_def ex_p0_def ex_n1_def ex_out_def ex_meta_def
  ex_st_def ex_st1_def ex_st2_def ex_sch_def rule_ok_def registry_def ex_graph_def ex_res_def

lemmas ex2_defs = tmT_def specB_def ex_stB_def ex_empty_strided_def ex_build_def ex_env_def

lemmas prop_defs = propagate_def rebuild_arg_def rebuild_tensor_from_dtensor_def

lemma tree_map_st_inv:
  assumes step: "\<And>x s r s'. f x s = (r, s') \<Longrightarrow> P s \<Longrightarrow> P s'"
  shows "tree_map_st f t s = (r, s') \<Longrightarrow> P s \<Longrightarrow> P s'"
    and "forest_map_st f ts s = (rs, s') \<Longrightarrow> P s \<Longrightarrow> P s'"
  using step
proof (induction f t s and f ts s arbitrary: r s' and rs s' rule: tree_map_st_forest_map_st.induct)
  case (1 f x s)
  obtain y s1 where fx: "f x s = (y, s1)" by (cases "f x s")
  from 1(1) fx have "s' = s1" by (auto split: sum.splits)
  with 1(3)[OF fx 1(2)] show ?case by simp
next
  case (2 f c ts s)
  obtain y s1 where fx: "forest_map_st f ts s = (y, s1)" by (cases "forest_map_st f ts s")
  from 2(2) fx have "s' = s1" by (auto split: sum.splits)
  with 2(1)[OF fx 2(3) 2(4)] show ?case by simp
next
  case (3 f s)
  then show ?case by simp
next
  case (4 f t ts s)
  obtain y s1 where fx: "tree_map_st f t s = (y, s1)" by (cases "tree_map_st f t s")
  have p1: "P s1" by (rule 4(1)[OF fx 4(4) 4(5)])
  show ?case
  proof (cases y)
    case (Inl e)
    with 4(3) fx p1 show ?thesis by simp
  next
    case (Inr t')
    obtain z s2 where gx: "forest_map_st f ts s1 = (z, s2)"
      by (cases "forest_map_st f ts s1")
    have "P s2" by (rule 4(2)[OF fx[symmetric] Inr gx p1 4(5)])
    moreover from 4(3) fx Inr gx have "s' = s2" by (auto split: sum.splits)
    ultimately show ?thesis by simp
  qed
qed

lemma unwrap_spec_from_node_calls:
  "unwrap_spec_from_node n st = (r, st') \<Longrightarrow>
     calls st' = calls st \<and> graphs_built st' = graphs_built st"
  by (auto simp: unwrap_spec_from_node_def set_sharding_def split: option.splits leaf.splits)

lemma unwrap_arg_calls:
  "unwrap_arg a st = (r, st') \<Longrightarrow> calls st' = calls st \<and> graphs_built st' = graphs_built st"
  by (auto simp: unwrap_arg_def split: arg.splits dest: unwrap_spec_from_node_calls)

lemma unwrap_tree_calls:
  assumes "tree_map_st unwrap_arg t s = (r, s')"
  shows "calls s' = calls s \<and> graphs_built s' = graphs_built s"
  by (rule tree_map_st_inv(1)[where f = unwrap_arg
        and P = "\<lambda>x. calls x = calls s \<and> graphs_built x = graphs_built s", OF _ assms])
     (auto dest: unwrap_arg_calls)

lemma node_op_schema_calls:
  assumes "node_op_schema n st = (r, st')"
  shows "calls st' = calls st \<and> graphs_built st' = graphs_built st"
  using assms
  by (auto simp: node_op_schema_def split: prod.splits sum.splits dest!: unwrap_tree_calls)

lemma ex_schema: "node_op_schema ex_n1 ex_st1 = (Inr ex_sch, ex_st2)"
  by (simp add: model_defs ex_defs)

lemma ex_target: "target ex_n1 = ''aten.relu''"
  by (simp add: ex_n1_def)

section \<open>Per-node propagation: the three outcomes\<close>

text \<open>
  Claim C3. The rule is registered, the schema \<open>sch\<close> of the node has been built, and the
  first call of the rule returns a result \<open>r\<close> with neither an output spec nor schema
  suggestions. Then the per-node propagation raises the error that carries the failure
  reason exactly when \<open>r\<close> has one; without a failure reason it returns a result with no
  output spec whose schema suggestions are the one-element list of the original schema.
\<close>

theorem no_output_no_suggestions:
  assumes "rules (target n) = Some f"
    and "node_op_schema n st = (Inr sch, st2)"
    and "f (store st2) sch = Inr r"
    and "output_spec r = None"
    and "schema_suggestions r = None"
  shows "fst (run_op_prop rules n st) =
           (case failed_reason r of
              Some reason \<Rightarrow> Inl (FailedReason (target n) sch reason)
            | None \<Rightarrow> Inr (OutputSharding None (Some [sch]) None (tensor_meta_attr r)))"
  using assms
  by (simp add: run_op_prop_def call_rule_def resolve_output_def Let_def split: option.splits)

theorem no_output_no_suggestions_witness:
  "fst (run_op_prop (registry rule_scalar) ex_n1 ex_st1) =
     Inr (OutputSharding None (Some [ex_sch]) None None)
   \<and> fst (run_op_prop (registry rule_reason) ex_n1 ex_st1) =
     Inl (FailedReason ''aten.relu'' ex_sch ''unsupported placements'')"
proof -
  have a: "registry rule_scalar (target ex_n1) = Some rule_scalar"
    and b: "registry rule_reason (target ex_n1) = Some rule_reason"
    by (simp_all add: registry_def ex_target)
  have c: "rule_scalar (store ex_st2) ex_sch = Inr (OutputSharding None None None None)"
    by (simp add: rule_scalar_def)
  have d: "rule_reason (store ex_st2) ex_sch =
             Inr (OutputSharding None None (Some ''unsupported placements'') None)"
    by (simp add: rule_reason_def)
  show ?thesis
    using no_output_no_suggestions[where rules = "registry rule_scalar" and n = ex_n1
               and f = rule_scalar and st = ex_st1 and sch = ex_sch and ?st2.0 = ex_st2
               and r = "OutputSharding None None None None", OF a ex_schema c]
          no_output_no_suggestions[where rules = "registry rule_reason" and n = ex_n1
               and f = rule_reason and st = ex_st1 and sch = ex_sch and ?st2.0 = ex_st2
               and r = "OutputSharding None None (Some ''unsupported placements'') None",
             OF b ex_schema d]
    by (simp add: ex_target)
qed

text \<open>
  Claim C1, as amended. The first call of the rule returns no output spec and a list of
  schema suggestions that is not empty, and the rule returns a result on the first
  suggestion. Then the rule is called exactly twice, on the original schema and then on the
  first suggestion, and the result returned has the output spec of the second call and the
  suggestions of the first call, unchanged.
\<close>

theorem redistribution_retry:
  assumes "rules (target n) = Some f"
    and "node_op_schema n st = (Inr sch, st2)"
    and "f (store st2) sch = Inr r"
    and "output_spec r = None"
    and "schema_suggestions r = Some (suggested # rest)"
    and "f (store st2) suggested = Inr propagation_res"
  shows "calls (snd (run_op_prop rules n st)) =
           calls st @ [(target n, sch), (target n, suggested)]
       \<and> fst (run_op_prop rules n st) =
           Inr (OutputSharding (output_spec propagation_res) (Some (suggested # rest))
                  (failed_reason r) (tensor_meta_attr r))"
  using assms node_op_schema_calls[OF assms(2)]
  by (simp add: run_op_prop_def call_rule_def resolve_output_def Let_def set_sharding_def)

theorem redistribution_retry_witness:
  "calls (snd (run_op_prop (registry rule_redistribute) ex_n1 ex_st1)) =
     [(''aten.relu'', ex_sch), (''aten.relu'', ex_sugg)]
   \<and> fst (run_op_prop (registry rule_redistribute) ex_n1 ex_st1) =
       Inr (OutputSharding (Some (Leaf (LSpec specR))) (Some [ex_sugg]) None None)"
proof -
  have a: "registry rule_redistribute (target ex_n1) = Some rule_redistribute"
    by (simp add: registry_def ex_target)
  have ne: "ex_sch \<noteq> ex_sugg" by (simp add: ex_sch_def ex_sugg_def)
  have c: "rule_redistribute (store ex_st2) ex_sch =
             Inr (OutputSharding None (Some [ex_sugg]) None None)"
    using ne by (simp add: rule_redistribute_def)
  have d: "rule_redistribute (store ex_st2) ex_sugg =
             Inr (OutputSharding (Some (Leaf (LSpec specR))) None None None)"
    by (simp add: rule_redistribute_def)
  have e: "calls ex_st1 = []" by (simp add: ex_st1_def ex_st_def set_sharding_def)
  show ?thesis
    using redistribution_retry[where rules = "registry rule_redistribute" and n = ex_n1
               and f = rule_redistribute and st = ex_st1 and sch = ex_sch and ?st2.0 = ex_st2
               and r = "OutputSharding None (Some [ex_sugg]) None None"
               and suggested = ex_sugg and rest = "[]"
               and propagation_res = "OutputSharding (Some (Leaf (LSpec specR))) None None None",
             OF a ex_schema c _ _ d]
    by (simp add: ex_target e)
qed

text \<open>Claim C1 as stated fails when the list of suggestions is not null but empty: the
  source reads its first element, which raises \<^verbatim>\<open>IndexError\<close>, and the rule is not called a
  second time.\<close>

theorem redistribution_retry_empty_suggestions:
  "rule_empty (store ex_st2) ex_sch = Inr (OutputSharding None (Some []) None None)
   \<and> node_op_schema ex_n1 ex_st1 = (Inr ex_sch, ex_st2)
   \<and> fst (run_op_prop (registry rule_empty) ex_n1 ex_st1) = Inl IndexError
   \<and> calls (snd (run_op_prop (registry rule_empty) ex_n1 ex_st1)) = [(''aten.relu'', ex_sch)]"
  by (simp add: model_defs ex_defs rule_empty_def)

text \<open>
  Claim C6, evaluated at a node whose rule returns an output spec at once. The schema
  suggestions of the result are the one-element list of the original schema, as the claim
  says; but what line 207 of the source attaches to the node as its sharding metadata is the
  whole \<^verbatim>\<open>OutputSharding\<close> object, not the output spec.
\<close>

theorem resolved_node_metadata_is_result_object:
  "rule_ok (store ex_st2) ex_sch = Inr (OutputSharding (Some (Leaf (LSpec specA))) None None None)
   \<and> fst (run_op_prop (registry rule_ok) ex_n1 ex_st1) =
       Inr (OutputSharding (Some (Leaf (LSpec specA))) (Some [ex_sch]) None None)
   \<and> meta_sharding (meta (snd (run_op_prop (registry rule_ok) ex_n1 ex_st1)) 1) =
       Some (LRes (OutputSharding (Some (Leaf (LSpec specA))) (Some [ex_sch]) None None))
   \<and> meta_sharding (meta (snd (run_op_prop (registry rule_ok) ex_n1 ex_st1)) 1)
       \<noteq> Some (LSpec specA)"
  by (simp add: model_defs ex_defs)

text \<open>
  Claim C7, evaluated at a rule that suggests a schema and raises when it is called on it.
  The second call (line 237 of the source) is outside of the \<^verbatim>\<open>try\<close> block of the first one:
  the exception of the rule leaves the propagator as it is, without the operator and the
  input schema.
\<close>

theorem second_invocation_exception_escapes:
  "rule_raise_second (store ex_st2) ex_sch = Inr (OutputSharding None (Some [ex_sugg]) None None)
   \<and> rule_raise_second (store ex_st2) ex_sugg = Inl ''boom''
   \<and> fst (run_op_prop (registry rule_raise_second) ex_n1 ex_st1) = Inl (RuleRaised ''boom'')
   \<and> (\<forall>sch. fst (run_op_prop (registry rule_raise_second) ex_n1 ex_st1)
               \<noteq> Inl (RuleFailed ''aten.relu'' sch ''boom''))"
  by (simp add: model_defs ex_defs rule_raise_second_def ex_sugg_def specR_def)

section \<open>The graph walk\<close>



lemma walk_append:
  "walk rules flat (xs @ ys) idx osh os st =
     (case walk rules flat xs idx osh os st of
        (Inl e, st') \<Rightarrow> (Inl e, st')
      | (Inr (osh', os'), st') \<Rightarrow>
          walk rules flat ys (idx + length (filter (\<lambda>n. op n = Placeholder) xs)) osh' os' st')"
proof (induction xs arbitrary: idx osh os st)
  case Nil
  then show ?case by simp
next
  case (Cons n xs)
  show ?case
  proof (cases "op n")
    case Placeholder
    have len: "idx + length (filter (\<lambda>n. op n = Placeholder) (n # xs))
                 = Suc idx + length (filter (\<lambda>n. op n = Placeholder) xs)"
      using Placeholder by simp
    show ?thesis unfolding len using Placeholder Cons.IH by simp
  next
    case CallFunction
    then show ?thesis using Cons.IH by (simp split: prod.splits sum.splits)
  next
    case Output
    then show ?thesis using Cons.IH by (simp split: prod.splits sum.splits)
  qed simp_all
qed

text \<open>The local variable \<^verbatim>\<open>output_sharding\<close> after the loop is the one before it, or the
  result of the per-node propagation of the last computational node.\<close>

lemma walk_last:
  assumes "walk rules flat ns idx osh os st = (Inr (osh', os'), st')"
  shows "(list_all (\<lambda>m. op m \<noteq> CallFunction) ns \<and> osh' = osh) \<or>
         (\<exists>pre n post o1 s1 st1 r st2.
            ns = pre @ n # post \<and> op n = CallFunction
          \<and> list_all (\<lambda>m. op m \<noteq> CallFunction) post
          \<and> walk rules flat pre idx osh os st = (Inr (o1, s1), st1)
          \<and> run_op_prop rules n st1 = (Inr r, st2) \<and> osh' = Some r)"
  using assms
proof (induction ns arbitrary: osh' os' st' rule: rev_induct)
  case Nil
  then show ?case by simp
next
  case (snoc n ns)
  from snoc.prems obtain o1 s1 st1 where
      pre: "walk rules flat ns idx osh os st = (Inr (o1, s1), st1)"
    and last: "walk rules flat [n] (idx + length (filter (\<lambda>n. op n = Placeholder) ns)) o1 s1 st1
                 = (Inr (osh', os'), st')"
    by (auto simp: walk_append split: prod.splits sum.splits)
  show ?case
  proof (cases "op n = CallFunction")
    case True
    with last obtain r where "run_op_prop rules n st1 = (Inr r, st')" "osh' = Some r"
      by (auto split: prod.splits sum.splits)
    with pre True have
      "ns @ [n] = ns @ n # [] \<and> op n = CallFunction
          \<and> list_all (\<lambda>m. op m \<noteq> CallFunction) []
          \<and> walk rules flat ns idx osh os st = (Inr (o1, s1), st1)
          \<and> run_op_prop rules n st1 = (Inr r, st') \<and> osh' = Some r"
      by simp
    then show ?thesis by blast
  next
    case False
    with last have same: "osh' = o1"
      by (cases "op n") (auto split: if_splits prod.splits sum.splits)
    from snoc.IH[OF pre] show ?thesis
    proof
      assume "list_all (\<lambda>m. op m \<noteq> CallFunction) ns \<and> o1 = osh"
      with False same show ?thesis by simp
    next
      assume "\<exists>pre n post o1' s1 st1 r st2.
            ns = pre @ n # post \<and> op n = CallFunction
          \<and> list_all (\<lambda>m. op m \<noteq> CallFunction) post
          \<and> walk rules flat pre idx osh os st = (Inr (o1', s1), st1)
          \<and> run_op_prop rules n st1 = (Inr r, st2) \<and> o1 = Some r"
      then obtain pre' m post o1' s1' st1' r st2 where
        d: "ns = pre' @ m # post" "op m = CallFunction"
           "list_all (\<lambda>m. op m \<noteq> CallFunction) post"
           "walk rules flat pre' idx osh os st = (Inr (o1', s1'), st1')"
           "run_op_prop rules m st1' = (Inr r, st2)" "o1 = Some r"
        by blast
      have "ns @ [n] = pre' @ m # (post @ [n])" using d(1) by simp
      moreover have "list_all (\<lambda>m. op m \<noteq> CallFunction) (post @ [n])"
        using d(3) False by simp
      ultimately show ?thesis using d(2,4,5,6) same by blast
    qed
  qed
qed

lemma ex_run: "fst (run_graph_prop (registry rule_ok) ex_graph [LRef 0] ex_st) = Inr ex_res"
  by (simp add: model_defs ex_defs)





text \<open>
  Claim C10. Whenever the walk returns a result, the graph has a computational node: the
  graph splits into the nodes before the last computational node \<open>n\<close>, that node, and nodes
  after it none of which is computational, and the schema suggestions of the result are those
  of the result of the per-node propagation of \<open>n\<close>, run in the state that the walk has
  reached before \<open>n\<close>. So on a graph without a computational node the walk does not return a
  result: the final line reads \<^verbatim>\<open>schema_suggestions\<close> of \<^verbatim>\<open>None\<close>.
\<close>

theorem walk_result_from_last_computational_node:
  assumes "run_graph_prop rules g flat st = (Inr res, st')"
  shows "\<exists>pre n post o1 s1 st1 r st2.
            g = pre @ n # post \<and> op n = CallFunction
          \<and> list_all (\<lambda>m. op m \<noteq> CallFunction) post
          \<and> walk rules flat pre 0 None None st = (Inr (o1, s1), st1)
          \<and> run_op_prop rules n st1 = (Inr r, st2)
          \<and> schema_suggestions res = schema_suggestions r"
proof -
  from assms obtain r out where
    w: "walk rules flat g 0 None None st = (Inr (Some r, Some out), st')"
    and res: "res = OutputSharding (Some out) (schema_suggestions r) None None"
    by (auto simp: run_graph_prop_def split: prod.splits sum.splits option.splits)
  from walk_last[OF w] obtain pre n post o1 s1 st1 r' st2 where
    d: "g = pre @ n # post" "op n = CallFunction"
       "list_all (\<lambda>m. op m \<noteq> CallFunction) post"
       "walk rules flat pre 0 None None st = (Inr (o1, s1), st1)"
       "run_op_prop rules n st1 = (Inr r', st2)" "Some r = Some r'"
    by auto
  from d(6) res have "schema_suggestions res = schema_suggestions r'" by simp
  with d(1-5) show ?thesis by blast
qed

theorem walk_result_from_last_computational_node_witness:
  "fst (run_graph_prop (registry rule_ok) ex_graph [LRef 0] ex_st) = Inr ex_res
   \<and> (\<exists>pre n post o1 s1 st1 r st2.
            ex_graph = pre @ n # post \<and> op n = CallFunction
          \<and> list_all (\<lambda>m. op m \<noteq> CallFunction) post
          \<and> walk (registry rule_ok) [LRef 0] pre 0 None None ex_st = (Inr (o1, s1), st1)
          \<and> run_op_prop (registry rule_ok) n st1 = (Inr r, st2)
          \<and> schema_suggestions ex_res = schema_suggestions r)"
proof -
  have h: "run_graph_prop (registry rule_ok) ex_graph [LRef 0] ex_st
             = (Inr ex_res, snd (run_graph_prop (registry rule_ok) ex_graph [LRef 0] ex_st))"
    using ex_run by (metis prod.collapse)
  show ?thesis using walk_result_from_last_computational_node[OF h] ex_run by simp
qed

section \<open>The store of operand specs\<close>

lemma frame_refl: "frame st st"
  by (simp add: frame_def)

lemma frame_set_sharding: "frame st0 s \<Longrightarrow> frame st0 (set_sharding n v s)"
  by (simp add: frame_def set_sharding_def)

lemma frame_call_rule: "call_rule f opn sch s = (r, s') \<Longrightarrow> frame st0 s \<Longrightarrow> frame st0 s'"
  by (auto simp: frame_def call_rule_def)

lemma frame_unwrap_spec_from_node:
  assumes "unwrap_spec_from_node n s = (r, s')" and "frame st0 s"
  shows "frame st0 s'"
proof (cases "meta_sharding (meta s n)")
  case None
  with assms show ?thesis by (simp add: unwrap_spec_from_node_def)
next
  case (Some spec)
  show ?thesis
  proof (cases "meta_tensor_meta (meta s n)")
    case None
    with Some assms show ?thesis by (simp add: unwrap_spec_from_node_def)
  next
    case tm: (Some tm)
    with assms(2) have n0: "meta_tensor_meta (meta st0 n) = Some tm" by (simp add: frame_def)
    show ?thesis
    proof (cases spec)
      case (LRef a)
      with Some tm assms(1)
      have s': "s' = s\<lparr>store := (store s)(a := (store s a)\<lparr>tensor_meta := Some tm\<rparr>)\<rparr>"
        by (simp add: unwrap_spec_from_node_def)
      show ?thesis using assms(2) n0 unfolding frame_def s' by auto
    next
      case (LSpec x)
      with Some tm assms show ?thesis
        by (auto simp: unwrap_spec_from_node_def intro: frame_set_sharding)
    next
      case (LConst c)
      with Some tm assms show ?thesis by (simp add: unwrap_spec_from_node_def)
    next
      case (LRes x)
      with Some tm assms show ?thesis
        by (auto simp: unwrap_spec_from_node_def intro: frame_set_sharding)
    qed
  qed
qed

lemma frame_unwrap_arg: "unwrap_arg x s = (r, s') \<Longrightarrow> frame st0 s \<Longrightarrow> frame st0 s'"
  by (auto simp: unwrap_arg_def split: arg.splits intro: frame_unwrap_spec_from_node)

lemma frame_unwrap_tree:
  assumes "tree_map_st unwrap_arg t s = (r, s')" and "frame st0 s"
  shows "frame st0 s'"
  by (rule tree_map_st_inv(1)[where f = unwrap_arg and P = "frame st0", OF _ assms])
     (rule frame_unwrap_arg)

lemma frame_node_op_schema:
  assumes "node_op_schema n s = (r, s')" and "frame st0 s"
  shows "frame st0 s'"
  using assms
  by (auto simp: node_op_schema_def split: prod.splits sum.splits dest: frame_unwrap_tree)

lemma frame_resolve_output:
  assumes "resolve_output f n sch r s = (x, s')" and "frame st0 s"
  shows "frame st0 s'"
  using assms
  by (auto simp: resolve_output_def Let_def split: option.splits list.splits prod.splits sum.splits
           intro!: frame_set_sharding dest!: frame_call_rule[where ?st0.0 = st0])

lemma frame_run_op_prop:
  assumes "run_op_prop rules n s = (x, s')" and "frame st0 s"
  shows "frame st0 s'"
proof (cases "rules (target n)")
  case None
  with assms show ?thesis by (simp add: run_op_prop_def)
next
  case (Some f)
  obtain y s2 where a: "node_op_schema n s = (y, s2)" by (cases "node_op_schema n s")
  have f2: "frame st0 s2" by (rule frame_node_op_schema[OF a assms(2)])
  show ?thesis
  proof (cases y)
    case (Inl e)
    with Some a assms(1) f2 show ?thesis by (simp add: run_op_prop_def)
  next
    case (Inr sch)
    obtain z s3 where b: "call_rule f (target n) sch s2 = (z, s3)"
      by (cases "call_rule f (target n) sch s2")
    have f3: "frame st0 s3" by (rule frame_call_rule[OF b f2])
    show ?thesis
    proof (cases z)
      case (Inl e)
      with Some a Inr b assms(1) f3 show ?thesis by (simp add: run_op_prop_def)
    next
      case r: (Inr r)
      with Some a Inr b assms(1) have "resolve_output f n sch r s3 = (x, s')"
        by (simp add: run_op_prop_def)
      from frame_resolve_output[OF this f3] show ?thesis .
    qed
  qed
qed

lemma frame_walk:
  "walk rules flat ns idx osh os s = (x, s') \<Longrightarrow> frame st0 s \<Longrightarrow> frame st0 s'"
proof (induction ns arbitrary: idx osh os s)
  case Nil
  then show ?case by simp
next
  case (Cons n ns)
  show ?case
  proof (cases "op n")
    case Placeholder
    show ?thesis
    proof (cases "idx < length flat")
      case True
      with Cons.prems(1) Placeholder
      have "walk rules flat ns (idx + 1) osh os
              (if is_DTensorSpec (flat ! idx) then set_sharding (nid n) (flat ! idx) s else s)
            = (x, s')" by simp
      moreover have "frame st0 (if is_DTensorSpec (flat ! idx)
                                then set_sharding (nid n) (flat ! idx) s else s)"
        using Cons.prems(2) by (simp add: frame_set_sharding)
      ultimately show ?thesis by (rule Cons.IH)
    next
      case False
      with Cons.prems Placeholder show ?thesis by simp
    qed
  next
    case CallFunction
    obtain y s1 where a: "run_op_prop rules n s = (y, s1)" by (cases "run_op_prop rules n s")
    have f1: "frame st0 s1" by (rule frame_run_op_prop[OF a Cons.prems(2)])
    show ?thesis
    proof (cases y)
      case (Inl e)
      with Cons.prems(1) CallFunction a f1 show ?thesis by simp
    next
      case (Inr r)
      with Cons.prems(1) CallFunction a have "walk rules flat ns idx (Some r) os s1 = (x, s')"
        by simp
      from Cons.IH[OF this f1] show ?thesis .
    qed
  next
    case Output
    obtain y s1 where a: "tree_map_st unwrap_arg
        (PNode KList (map (\<lambda>i. Leaf (ANode i)) (all_input_nodes n))) s = (y, s1)"
      by (cases "tree_map_st unwrap_arg
        (PNode KList (map (\<lambda>i. Leaf (ANode i)) (all_input_nodes n))) s")
    have f1: "frame st0 s1" by (rule frame_unwrap_tree[OF a Cons.prems(2)])
    show ?thesis
    proof (cases y)
      case (Inl e)
      with Cons.prems(1) Output a f1 show ?thesis by simp
    next
      case (Inr out)
      with Cons.prems(1) Output a have "walk rules flat ns idx osh (Some out) s1 = (x, s')"
        by simp
      from Cons.IH[OF this f1] show ?thesis .
    qed
  next
    case GetAttr
    with Cons.prems show ?thesis by simp
  next
    case CallModule
    with Cons.prems show ?thesis by simp
  next
    case CallMethod
    with Cons.prems show ?thesis by simp
  qed
qed

lemma frame_run_graph_prop: "frame st (snd (run_graph_prop rules g flat st))"
proof -
  obtain y s1 where a: "walk rules flat g 0 None None st = (y, s1)"
    by (cases "walk rules flat g 0 None None st")
  have "frame st s1" by (rule frame_walk[OF a frame_refl])
  moreover have "snd (run_graph_prop rules g flat st) = s1"
    using a by (auto simp: run_graph_prop_def split: sum.splits option.splits)
  ultimately show ?thesis by simp
qed

text \<open>
  Claim C9, as amended. The graph walk changes no field of a caller's operand spec other
  than its tensor metadata: the mesh and the placements of every spec of the store are the
  same after the walk, whatever the graph, the rules and the outcome are; and the tensor
  metadata of a spec are either the same or the tensor metadata of a node of the graph
  (\<^verbatim>\<open>unwrap_spec_from_node\<close> assigns them to the spec attached to the node).
\<close>

theorem operand_spec_frame:
  "\<forall>a. mesh (store (snd (run_graph_prop rules g flat st)) a) = mesh (store st a)
      \<and> placements (store (snd (run_graph_prop rules g flat st)) a) = placements (store st a)
      \<and> (tensor_meta (store (snd (run_graph_prop rules g flat st)) a) = tensor_meta (store st a)
         \<or> (\<exists>n tm. meta_tensor_meta (meta st n) = Some tm
                \<and> tensor_meta (store (snd (run_graph_prop rules g flat st)) a) = Some tm))"
  using frame_run_graph_prop[of st rules g flat] unfolding frame_def by blast

text \<open>Claim C9 as stated fails: the caller's spec at address 0, attached to the placeholder
  and unwrapped for the computational node, has no tensor metadata before the walk and those
  of the placeholder after it.\<close>

theorem operand_spec_tensor_meta_overwritten:
  "tensor_meta (store ex_st 0) = None
   \<and> tensor_meta (store (snd (run_graph_prop (registry rule_ok) ex_graph [LRef 0] ex_st)) 0)
       = Some tmA
   \<and> store (snd (run_graph_prop (registry rule_ok) ex_graph [LRef 0] ex_st)) 0 \<noteq> store ex_st 0"
  by (simp add: model_defs ex_defs)

section \<open>Operators without a rule\<close>



text \<open>
  Claim C4, as amended. When the walk reaches a computational node \<open>n\<close> whose operator has no
  rule registered, in the state \<open>st1\<close> that the nodes before \<open>n\<close> have left, the per-node
  propagation raises \<^verbatim>\<open>NotImplementedError\<close> naming the operator of \<open>n\<close> and changes nothing
  (no node metadata, no operand spec, no call of a rule), and the walk ends with this error
  in the state \<open>st1\<close>. What the walk has done before \<open>n\<close>, such as attaching the operand specs
  to the placeholders, stays done.
\<close>

theorem unregistered_operator_raises:
  assumes "rules (target n) = None" and "op n = CallFunction"
    and "walk rules flat pre 0 None None st = (Inr x, st1)"
  shows "run_op_prop rules n st1 = (Inl (NotImplementedError (target n)), st1)
       \<and> run_graph_prop rules (pre @ n # post) flat st
           = (Inl (NotImplementedError (target n)), st1)"
proof -
  have a: "run_op_prop rules n st1 = (Inl (NotImplementedError (target n)), st1)"
    using assms(1) by (simp add: run_op_prop_def)
  obtain o1 s1 where x: "x = (o1, s1)" by (cases x)
  have "walk rules flat (pre @ n # post) 0 None None st
          = (Inl (NotImplementedError (target n)), st1)"
    using assms(2,3) a x by (simp add: walk_append)
  with a show ?thesis by (simp add: run_graph_prop_def)
qed

theorem unregistered_operator_raises_witness:
  "run_op_prop (\<lambda>n. None) ex_n1 ex_st1 = (Inl (NotImplementedError ''aten.relu''), ex_st1)
   \<and> run_graph_prop (\<lambda>n. None) ([ex_p0] @ ex_n1 # [ex_out]) [LRef 0] ex_st
       = (Inl (NotImplementedError ''aten.relu''), ex_st1)"
proof -
  have a: "(\<lambda>n. None :: rule option) (target ex_n1) = None" by simp
  have b: "op ex_n1 = CallFunction" by (simp add: ex_n1_def)
  have c: "walk (\<lambda>n. None) [LRef 0] [ex_p0] 0 None None ex_st = (Inr (None, None), ex_st1)"
    by (simp add: ex_defs is_DTensorSpec_def)
  show ?thesis
    using unregistered_operator_raises[where rules = "\<lambda>n. None" and n = ex_n1 and flat = "[LRef 0]"
            and pre = "[ex_p0]" and st = ex_st and x = "(None, None)" and ?st1.0 = ex_st1
            and post = "[ex_out]", OF a b c]
    by (simp add: ex_target)
qed

text \<open>Claim C4 as stated fails: \<^verbatim>\<open>propagate\<close> raises the error for the unregistered
  operator, but the sharding metadata of the placeholder of the trial graph has been set
  before.\<close>

theorem unregistered_operator_after_placeholder_mutation:
  "fst (propagate (\<lambda>n. None) ex_env ''aten.relu'' ex_sch ex_stB)
     = Inl (NotImplementedError ''aten.relu'')
   \<and> meta_sharding (ex_meta 0) = None
   \<and> meta_sharding (meta (snd (propagate (\<lambda>n. None) ex_env ''aten.relu'' ex_sch ex_stB)) 0)
       = Some (LRef 0)"
  by (simp add: propagate_def rebuild_arg_def rebuild_tensor_from_dtensor_def model_defs ex_defs ex2_defs)

section \<open>The caching propagator\<close>

text \<open>
  Claim C5. If the key of the schema is in the cache, \<open>caching_propagate\<close> returns the stored
  result and leaves the state as it is: no trial graph is built and no rule is called.
  Otherwise it returns what \<open>propagate\<close> returns, and a result of \<open>propagate\<close> is stored under
  the key of the schema. After a call that returned a result \<open>r\<close>, a call with a schema of
  the same key returns \<open>r\<close> again, with the state and the cache unchanged. As in the
  source, the key under which a result is stored is computed after \<open>propagate\<close> has run, from
  the specs as the walk has left them.
\<close>

theorem caching_propagate_hit_and_miss:
  "(cached_prop_results self (key_of (store st) sch) = Some r0 \<longrightarrow>
      caching_propagate key_of env op_call sch self st = ((Inr r0, st), self))
   \<and> (cached_prop_results self (key_of (store st) sch) = None \<longrightarrow>
        fst (caching_propagate key_of env op_call sch self st)
          = propagate (op_to_rules self) env op_call sch st
      \<and> (\<forall>r1 st1. propagate (op_to_rules self) env op_call sch st = (Inr r1, st1) \<longrightarrow>
            cached_prop_results (snd (caching_propagate key_of env op_call sch self st))
              (key_of (store st1) sch) = Some r1))
   \<and> (caching_propagate key_of env op_call sch self st = ((Inr r, st'), self')
        \<and> key_of (store st2) sch2 = key_of (store st') sch \<longrightarrow>
      caching_propagate key_of env2 op_call2 sch2 self' st2 = ((Inr r, st2), self'))"
proof (intro conjI impI allI)
  assume "cached_prop_results self (key_of (store st) sch) = Some r0"
  then show "caching_propagate key_of env op_call sch self st = ((Inr r0, st), self)"
    by (simp add: caching_propagate_def)
next
  assume "cached_prop_results self (key_of (store st) sch) = None"
  then show "fst (caching_propagate key_of env op_call sch self st)
          = propagate (op_to_rules self) env op_call sch st"
    by (simp add: caching_propagate_def split: prod.splits sum.splits)
next
  fix r1 st1
  assume "cached_prop_results self (key_of (store st) sch) = None"
    and "propagate (op_to_rules self) env op_call sch st = (Inr r1, st1)"
  then show "cached_prop_results (snd (caching_propagate key_of env op_call sch self st))
              (key_of (store st1) sch) = Some r1"
    by (simp add: caching_propagate_def)
next
  assume a: "caching_propagate key_of env op_call sch self st = ((Inr r, st'), self')
        \<and> key_of (store st2) sch2 = key_of (store st') sch"
  have "cached_prop_results self' (key_of (store st') sch) = Some r"
  proof (cases "cached_prop_results self (key_of (store st) sch)")
    case None
    with a show ?thesis
      by (auto simp: caching_propagate_def split: prod.splits sum.splits)
  next
    case (Some r0)
    with a show ?thesis by (auto simp: caching_propagate_def)
  qed
  with a show "caching_propagate key_of env2 op_call2 sch2 self' st2 = ((Inr r, st2), self')"
    by (simp add: caching_propagate_def)
qed


lemma ex_first_result: "fst (fst ex_first) = Inr ex_res"
  by (simp add: ex_first_def caching_propagate_def prop_defs model_defs ex_defs ex2_defs
        ex_key_def deref_leaf_def ex_self_def split: prod.splits sum.splits)

lemma ex_first_miss: "cached_prop_results ex_self (ex_key (store ex_stB) ex_sch) = None"
  by (simp add: ex_self_def)

theorem caching_propagate_hit_and_miss_witness:
  "fst (fst ex_first) = Inr ex_res
   \<and> fst ex_first = propagate (registry rule_ok) ex_env ''aten.relu'' ex_sch ex_stB
   \<and> caching_propagate ex_key ex_env ''aten.relu'' ex_sch (snd ex_first) (snd (fst ex_first))
       = ((Inr ex_res, snd (fst ex_first)), snd ex_first)"
proof -
  have full: "caching_propagate ex_key ex_env ''aten.relu'' ex_sch ex_self ex_stB
                = ((Inr ex_res, snd (fst ex_first)), snd ex_first)"
    using ex_first_result by (metis ex_first_def prod.collapse)
  have rules: "op_to_rules ex_self = registry rule_ok" by (simp add: ex_self_def)
  note t = caching_propagate_hit_and_miss[where self = ex_self and key_of = ex_key and st = ex_stB and sch = ex_sch
               and env = ex_env and op_call = "''aten.relu''" and r = ex_res
               and st' = "snd (fst ex_first)" and self' = "snd ex_first"
               and ?st2.0 = "snd (fst ex_first)" and ?sch2.0 = ex_sch
               and ?env2.0 = ex_env and ?op_call2.0 = "''aten.relu''"]
  from t ex_first_miss
  have "fst (caching_propagate ex_key ex_env ''aten.relu'' ex_sch ex_self ex_stB)
          = propagate (op_to_rules ex_self) ex_env ''aten.relu'' ex_sch ex_stB"
    by blast
  then have second: "fst ex_first
          = propagate (registry rule_ok) ex_env ''aten.relu'' ex_sch ex_stB"
    unfolding rules ex_first_def .
  from t full
  have third: "caching_propagate ex_key ex_env ''aten.relu'' ex_sch (snd ex_first)
                 (snd (fst ex_first)) = ((Inr ex_res, snd (fst ex_first)), snd ex_first)"
    by blast
  from ex_first_result second third show ?thesis by blast
qed

section \<open>The output spec of a propagation\<close>


















end
